theory Spec2Isabelle
  imports Complex_Main "HOL-Library.Log_Nat"
begin

section \<open>Errors raised by the servers\<close>

text \<open>
  Every exception the modelled code can raise is a value of \<open>error\<close>.
  \<open>PortRegError\<close> is a subclass of \<open>SerialConnectionError\<close> in the source, so an
  \<open>except SerialConnectionError\<close> clause catches both; \<open>LabradError\<close> stands for
  \<open>labrad.types.Error\<close> with its numeric code; \<open>PyException\<close> is a plain
  \<open>Exception(message)\<close>.
\<close>

datatype error =
    ValueError
  | AttributeError
  | SerialDeviceError string
  | SerialConnectionError int
  | PortRegError int
  | LabradError int
  | SocketTimeout
  | KeyError
  | PyException string

fun serial_connection_code :: "error \<Rightarrow> int option" where
  "serial_connection_code (SerialConnectionError c) = Some c"
| "serial_connection_code (PortRegError c) = Some c"
| "serial_connection_code _ = None"

section \<open>Python strings and integers\<close>

definition CR :: string where
  "CR = [CHR 0x0D]"

definition LF :: string where
  "LF = [CHR 0x0A]"

definition APOS :: string where
  "APOS = [CHR 0x27]"

definition digit_char :: "nat \<Rightarrow> char" where
  "digit_char d = ''0123456789'' ! (d mod 10)"

fun str_nat :: "nat \<Rightarrow> string" where
  "str_nat n = (if n < 10 then [digit_char n] else str_nat (n div 10) @ [digit_char (n mod 10)])"

declare str_nat.simps [simp del]

text \<open>\<open>str(i)\<close> for a Python int: decimal digits, with a leading minus sign when negative.\<close>

definition str_int :: "int \<Rightarrow> string" where
  "str_int i = (if i < 0 then ''-'' @ str_nat (nat (- i)) else str_nat (nat i))"

text \<open>\<open>sub in s\<close> for Python strings: \<open>sub\<close> occurs in \<open>s\<close> as a contiguous substring.\<close>

fun starts_with :: "string \<Rightarrow> string \<Rightarrow> bool" where
  "starts_with [] s = True"
| "starts_with (a # as) [] = False"
| "starts_with (a # as) (b # bs) = (a = b \<and> starts_with as bs)"

fun str_in :: "string \<Rightarrow> string \<Rightarrow> bool" where
  "str_in sub [] = (sub = [])"
| "str_in sub (b # bs) = (starts_with sub (b # bs) \<or> str_in sub bs)"

text \<open>\<open>s.lower()\<close> on ASCII letters; other characters are left as they are.\<close>

definition lower_char :: "char \<Rightarrow> char" where
  "lower_char c =
     (case map_of (zip ''ABCDEFGHIJKLMNOPQRSTUVWXYZ'' ''abcdefghijklmnopqrstuvwxyz'') c of
        None \<Rightarrow> c
      | Some l \<Rightarrow> l)"

definition lower :: "string \<Rightarrow> string" where
  "lower s = map lower_char s"

section \<open>The serial connection handle\<close>

text \<open>
  \<open>SerialConnection\<close> wraps the client connection to the serial server. The model keeps
  the identity of the serial server (\<open>ID\<close>), the trace of accesses made through the
  handle in order (\<open>wire\<close>), and the lines the device will answer (\<open>pending\<close>). A
  \<open>read_line\<close> with nothing pending returns the empty string, as the serial server does
  when its timeout expires.
\<close>

datatype io_event = Write string | ReadLine

record SerialConnection =
  ID :: int
  wire :: "io_event list"
  pending :: "string list"

definition ser_write :: "string \<Rightarrow> SerialConnection \<Rightarrow> SerialConnection" where
  "ser_write s c = c\<lparr>wire := wire c @ [Write s]\<rparr>"

definition ser_read_line :: "SerialConnection \<Rightarrow> string \<times> SerialConnection" where
  "ser_read_line c =
     (case pending c of
        [] \<Rightarrow> ('''', c\<lparr>wire := wire c @ [ReadLine]\<rparr>)
      | l # ls \<Rightarrow> (l, c\<lparr>wire := wire c @ [ReadLine], pending := ls\<rparr>))"

section \<open>Python floats\<close>

text \<open>
  A Python float is an IEEE 754 binary64 value: a finite value (a rational), an infinity
  or NaN. The sign of zero is not kept: \<open>v + 500\<close> is never a negative zero, and its
  quotient by \<open>1000\<close> is too far from zero to round to one.
\<close>

datatype pyfloat = Finite rat | PosInf | NegInf | NaN

text \<open>\<open>x > c\<close> and \<open>x < c\<close> for a float \<open>x\<close> and an int \<open>c\<close>; every comparison with NaN is false.\<close>

fun float_gt :: "pyfloat \<Rightarrow> int \<Rightarrow> bool" where
  "float_gt (Finite x) c = (x > of_int c)"
| "float_gt PosInf c = True"
| "float_gt NegInf c = False"
| "float_gt NaN c = False"

fun float_lt :: "pyfloat \<Rightarrow> int \<Rightarrow> bool" where
  "float_lt (Finite x) c = (x < of_int c)"
| "float_lt PosInf c = False"
| "float_lt NegInf c = True"
| "float_lt NaN c = False"

subsection \<open>Rounding to binary64\<close>

text \<open>
  \<open>pow2 e\<close> is \<open>2\<close> to the integer power \<open>e\<close>; \<open>ilog2 x\<close> is the binary exponent of a
  positive rational, the integer \<open>e\<close> with \<open>2^e \<le> x < 2^(e+1)\<close>: for \<open>1 \<le> x\<close> one less
  than the bit length of the integer part, below \<open>1\<close> the negated bit length of
  \<open>\<lceil>1/x\<rceil> - 1\<close>.
\<close>

definition pow2 :: "int \<Rightarrow> rat" where
  "pow2 e = (if 0 \<le> e then 2 ^ nat e else 1 / 2 ^ nat (- e))"

definition ilog2 :: "rat \<Rightarrow> int" where
  "ilog2 x = (if 1 \<le> x then bitlen \<lfloor>x\<rfloor> - 1 else - bitlen (\<lceil>1 / x\<rceil> - 1))"

text \<open>Rounding to the nearest integer, ties to the even one.\<close>

definition round_half_even :: "rat \<Rightarrow> int" where
  "round_half_even x =
     (let f = \<lfloor>x\<rfloor>; r = x - of_int f
      in if r < 1 / 2 then f else if 1 / 2 < r then f + 1 else if even f then f else f + 1)"

text \<open>
  The result of an arithmetic operation is the exact result rounded to the nearest
  binary64: 53 significant bits, ties to even, the exponent not below that of the
  subnormals (unit \<open>2^-1074\<close>), and an infinity once the rounded magnitude reaches \<open>2^1024\<close>.
\<close>

definition round_double :: "rat \<Rightarrow> pyfloat" where
  "round_double x =
     (if x = 0 then Finite 0
      else let e = max (ilog2 \<bar>x\<bar>) (- 1022);
               u = pow2 (e - 52);
               y = of_int (round_half_even (x / u)) * u
           in if pow2 1024 \<le> \<bar>y\<bar> then (if 0 < x then PosInf else NegInf) else Finite y)"

text \<open>
  \<open>x + c\<close> and \<open>x / c\<close> for a float \<open>x\<close> and an int constant \<open>c\<close> that is positive and
  exactly representable (the source uses \<open>500\<close> and \<open>1000\<close>).
\<close>

fun float_add_int :: "pyfloat \<Rightarrow> int \<Rightarrow> pyfloat" where
  "float_add_int (Finite x) c = round_double (x + of_int c)"
| "float_add_int PosInf c = PosInf"
| "float_add_int NegInf c = NegInf"
| "float_add_int NaN c = NaN"

fun float_div_int :: "pyfloat \<Rightarrow> int \<Rightarrow> pyfloat" where
  "float_div_int (Finite x) c = round_double (x / of_int c)"
| "float_div_int PosInf c = PosInf"
| "float_div_int NegInf c = NegInf"
| "float_div_int NaN c = NaN"

subsection \<open>Formatting with \<open>:.6f\<close>\<close>

text \<open>
  \<open>f'{d:.6f}'\<close> prints the exact value of the float correctly rounded (ties to even) to
  six decimals: a minus sign for a negative value, the integer part, a point and six
  digits; the non-finite values print as \<open>inf\<close>, \<open>-inf\<close> and \<open>nan\<close>.
\<close>

definition pad6 :: "string \<Rightarrow> string" where
  "pad6 s = replicate (6 - length s) (CHR ''0'') @ s"

definition fixed6 :: "nat \<Rightarrow> string" where
  "fixed6 n = str_nat (n div 1000000) @ ''.'' @ pad6 (str_nat (n mod 1000000))"

fun format_6f :: "pyfloat \<Rightarrow> string" where
  "format_6f (Finite x) =
     (if x < 0 then ''-'' else []) @ fixed6 (nat (round_half_even (\<bar>x\<bar> * 1000000)))"
| "format_6f PosInf = ''inf''"
| "format_6f NegInf = ''-inf''"
| "format_6f NaN = ''nan''"

section \<open>The device server state\<close>

text \<open>
  The attributes of \<open>SerialDeviceServer\<close> and of its subclass \<open>HV500Server\<close>.
  An attribute that is \<open>None\<close> (or not yet assigned, for \<open>IDN\<close>) is \<open>None\<close> here.
  \<open>baudrate\<close> is defined by the subclass, as \<open>HV500Server\<close> does; \<open>timeout\<close> and
  \<open>listeners\<close> are left out: they are handed to the serial server or only stored, and no
  modelled operation reads them.
\<close>

record server =
  name :: "string option"
  port :: "string option"
  regKey :: "string option"
  serNode :: "string option"
  baudrate :: "int option"
  ser :: "SerialConnection option"
  IDN :: "string option"

definition VLIM :: int where
  "VLIM = 300"

subsection \<open>\<open>SerialDeviceServer.checkConnection\<close> and \<open>serverDisconnected\<close>\<close>

definition checkConnection :: "server \<Rightarrow> error + unit" where
  "checkConnection s = (case ser s of None \<Rightarrow> Inl (SerialConnectionError 2) | Some c \<Rightarrow> Inr ())"

definition serverDisconnected :: "int \<Rightarrow> string \<Rightarrow> server \<Rightarrow> server" where
  "serverDisconnected ident nm s =
     (case ser s of
        None \<Rightarrow> s
      | Some c \<Rightarrow> if ID c = ident then s\<lparr>ser := None\<rparr> else s)"

section \<open>The HV500 protocol codec\<close>

definition channel_to_str :: "int \<Rightarrow> string" where
  "channel_to_str channel =
     (let ch = str_int channel in if length ch > 1 then ch else ''0'' @ ch)"

definition voltage_to_kw :: "pyfloat \<Rightarrow> string" where
  "voltage_to_kw v = format_6f (float_div_int (float_add_int v 500) 1000)"

text \<open>
  \<open>get_voltage\<close>. The built-in \<open>float(...)\<close> applied to the reply is the parameter
  \<open>pyfloat_of\<close>, \<open>None\<close> where Python raises \<open>ValueError\<close>. Reading \<open>self.ser.write\<close>
  with \<open>self.ser\<close> being \<open>None\<close>, or \<open>self.IDN\<close> before it is assigned, raises
  \<open>AttributeError\<close>. \<open>val[:-1]\<close> is \<open>butlast val\<close>.
\<close>

definition get_voltage ::
  "(string \<Rightarrow> pyfloat option) \<Rightarrow> int \<Rightarrow> server \<Rightarrow> (error + pyfloat) \<times> server" where
  "get_voltage pyfloat_of channel s =
     (let ch_str = channel_to_str channel in
      case ser s of
        None \<Rightarrow> (Inl AttributeError, s)
      | Some c \<Rightarrow>
         (case IDN s of
            None \<Rightarrow> (Inl AttributeError, s)
          | Some idn \<Rightarrow>
             (let c1 = ser_write (idn @ '' Q'' @ ch_str @ CR) c;
                  (val, c2) = ser_read_line c1;
                  s' = s\<lparr>ser := Some c2\<rparr>
              in case pyfloat_of (butlast val) of
                   None \<Rightarrow> (Inl ValueError, s')
                 | Some v \<Rightarrow> (Inr v, s'))))"

definition set_voltage :: "int \<Rightarrow> pyfloat \<Rightarrow> server \<Rightarrow> (error + unit) \<times> server" where
  "set_voltage channel voltage s =
     (if float_gt voltage VLIM \<or> float_lt voltage (- VLIM) then (Inl ValueError, s)
      else
        (let ch_str = channel_to_str channel;
             volt_str = voltage_to_kw voltage
         in case ser s of
              None \<Rightarrow> (Inl AttributeError, s)
            | Some c \<Rightarrow>
               (case IDN s of
                  None \<Rightarrow> (Inl AttributeError, s)
                | Some idn \<Rightarrow>
                   (Inr (), s\<lparr>ser := Some (ser_write (idn @ '' CH'' @ ch_str @ '' '' @ volt_str @ CR) c)\<rparr>))))"

text \<open>
  The class attributes of \<open>HV500Server\<close>; \<open>serNode\<close> is \<open>getNodeName()\<close>, the name of the
  node the server runs on, a parameter here. \<open>hv500_connected\<close> is such a server after a
  successful \<open>initServer\<close>: port resolved, a handle held and \<open>IDN\<close> the last five
  characters of \<open>regKey\<close>.
\<close>

definition HV500Server :: "string \<Rightarrow> server" where
  "HV500Server node =
     \<lparr>name = Some ''hv500_server'', port = None, regKey = Some ''HV500_HV264'',
      serNode = Some node, baudrate = Some 9600, ser = None, IDN = None\<rparr>"

definition hv500_connected :: "string list \<Rightarrow> server" where
  "hv500_connected replies =
     (HV500Server ''labpc'')
       \<lparr>port := Some ''COM3'',
        ser := Some \<lparr>ID = 7, wire = [], pending = replies\<rparr>,
        IDN := Some ''HV264''\<rparr>"

text \<open>A stand-in for \<open>float\<close> on the one reply used in the examples below.\<close>

definition float_of_reply :: "string \<Rightarrow> pyfloat option" where
  "float_of_reply t = (if t = ''12.50'' then Some (Finite (25 / 2)) else None)"

section \<open>The registry\<close>

text \<open>
  The LabRAD registry as the servers use it: a cursor (the current directory, an absolute
  path whose first element is the empty string) and the existing directories, each with
  the names of its subdirectories and its keys with their values in listing order.
  \<open>cd\<close> into a directory that does not exist raises \<open>labrad.types.Error\<close>; the code of
  that error belongs to the registry service and is the field \<open>nodir_code\<close>, as
  \<open>nokey_code\<close> is the code of the error of \<open>get\<close> on a key that is not there.
\<close>

type_synonym path = "string list"

record registry =
  cursor :: path
  dirs :: "(path \<times> (string list \<times> (string \<times> string) list)) list"
  nodir_code :: int
  nokey_code :: int

text \<open>\<open>reg.cd()\<close> without an argument returns the current directory.\<close>

definition reg_pwd :: "registry \<Rightarrow> path" where
  "reg_pwd r = cursor r"

definition reg_cd :: "path \<Rightarrow> registry \<Rightarrow> error + registry" where
  "reg_cd p r =
     (case map_of (dirs r) p of
        None \<Rightarrow> Inl (LabradError (nodir_code r))
      | Some d \<Rightarrow> Inr (r\<lparr>cursor := p\<rparr>))"

definition reg_dir :: "registry \<Rightarrow> error + (string list \<times> string list)" where
  "reg_dir r =
     (case map_of (dirs r) (cursor r) of
        None \<Rightarrow> Inl (LabradError (nodir_code r))
      | Some d \<Rightarrow> Inr (fst d, map fst (snd d)))"

definition reg_get :: "string \<Rightarrow> registry \<Rightarrow> error + string" where
  "reg_get k r =
     (case map_of (dirs r) (cursor r) of
        None \<Rightarrow> Inl (LabradError (nodir_code r))
      | Some d \<Rightarrow>
         (case map_of (snd d) k of
            None \<Rightarrow> Inl (LabradError (nokey_code r))
          | Some v \<Rightarrow> Inr v))"

text \<open>
  \<open>reg.cd(tmp)\<close> as the sources call it to go back: the request is sent and its result
  is not awaited, so a failure of it is not raised in the caller.
\<close>

definition reg_restore :: "path \<Rightarrow> registry \<Rightarrow> registry" where
  "reg_restore tmp r = (case reg_cd tmp r of Inl e \<Rightarrow> r | Inr r' \<Rightarrow> r')"

section \<open>\<open>SerialDeviceServer\<close>: port resolution and start-up\<close>

text \<open>
  The key looked for: \<open>regKey\<close> when it is given and not empty, otherwise the first four
  characters of \<open>name\<close> in lower case; \<open>None\<close> when neither is there (the source raises
  \<open>SerialDeviceError\<close>).
\<close>

definition truthy :: "string option \<Rightarrow> bool" where
  "truthy x = (case x of None \<Rightarrow> False | Some t \<Rightarrow> t \<noteq> [])"

definition lookup_key :: "string option \<Rightarrow> server \<Rightarrow> string option" where
  "lookup_key rk s =
     (if truthy rk then rk
      else if truthy (name s) then map_option (\<lambda>n. lower (take 4 n)) (name s)
      else None)"

text \<open>
  The handler \<open>except Error as e\<close> of \<open>getPortFromReg\<close>: go back to the remembered
  directory, then raise \<open>PortRegError(0)\<close> for code \<open>17\<close> and the error itself otherwise.
\<close>

definition port_reg_handler :: "path \<Rightarrow> error \<Rightarrow> registry \<Rightarrow> (error + string) \<times> registry" where
  "port_reg_handler tmp e r =
     (Inl (if e = LabradError 17 then PortRegError 0 else e), reg_restore tmp r)"

text \<open>
  \<open>getPortFromReg\<close>. Only \<open>labrad.types.Error\<close> is caught: \<open>SerialDeviceError\<close> and
  \<open>PortRegError(1)\<close>, raised inside the \<open>try\<close>, leave through no handler.
\<close>

definition getPortFromReg :: "string option \<Rightarrow> server \<Rightarrow> registry \<Rightarrow> (error + string) \<times> registry" where
  "getPortFromReg rk s r =
     (let tmp = reg_pwd r in
      case reg_cd ['''', ''Ports''] r of
        Inl e \<Rightarrow> port_reg_handler tmp e r
      | Inr r1 \<Rightarrow>
         (case reg_dir r1 of
            Inl e \<Rightarrow> port_reg_handler tmp e r1
          | Inr y \<Rightarrow>
             (case lookup_key rk s of
                None \<Rightarrow> (Inl (SerialDeviceError ''name attribute is None''), r1)
              | Some k \<Rightarrow>
                 (case filter (\<lambda>x. str_in k x) (snd y) of
                    [] \<Rightarrow> (Inl (PortRegError 1), r1)
                  | portStrKey # rest \<Rightarrow>
                     (case reg_get portStrKey r1 of
                        Inl e \<Rightarrow> port_reg_handler tmp e r1
                      | Inr portStrVal \<Rightarrow> (Inr portStrVal, reg_restore tmp r1))))))"

text \<open>
  The LabRAD client of the server: the registry, the servers the manager lists (identity
  and name), and the pairs of serial server name and port that can be opened.
\<close>

record client =
  registry :: registry
  manager_servers :: "(int \<times> string) list"
  openable :: "(string \<times> string) list"

definition matchSerial :: "string \<Rightarrow> string \<Rightarrow> bool" where
  "matchSerial node potMatch =
     (str_in ''serial'' (lower potMatch) \<and> str_in (lower node) (lower potMatch))"

definition findSerial :: "string \<Rightarrow> client \<Rightarrow> error + string" where
  "findSerial node cl =
     (case filter (\<lambda>i. matchSerial node (snd i)) (manager_servers cl) of
        [] \<Rightarrow> Inl (SerialConnectionError 0)
      | i # rest \<Rightarrow> Inr (snd i))"

text \<open>
  \<open>initSerial\<close>: \<open>cli.servers[serStr]\<close> is the wrapper of the named server (a
  \<open>KeyError\<close> when no such server is listed), and building the \<open>SerialConnection\<close> opens
  the port on it; an \<open>Error\<close> there leaves \<open>ser = None\<close> and raises
  \<open>SerialConnectionError(1)\<close>. The new handle carries the identity of the serial server.
\<close>

definition initSerial :: "string \<Rightarrow> string \<Rightarrow> client \<Rightarrow> server \<Rightarrow> (error + unit) \<times> server" where
  "initSerial serStr prt cl s =
     (case find (\<lambda>i. snd i = serStr) (manager_servers cl) of
        None \<Rightarrow> (Inl KeyError, s)
      | Some i \<Rightarrow>
         (if (serStr, prt) \<in> set (openable cl)
          then (Inr (), s\<lparr>ser := Some \<lparr>ID = fst i, wire = [], pending = []\<rparr>\<rparr>)
          else (Inl (SerialConnectionError 1), s\<lparr>ser := None\<rparr>)))"

text \<open>
  \<open>SerialDeviceServer.initServer\<close>. The call of \<open>getPortFromReg\<close> stands before the
  \<open>try\<close>; the handler takes \<open>SerialConnectionError\<close> and its subclass \<open>PortRegError\<close>
  from \<open>findSerial\<close> and \<open>initSerial\<close>, swallows codes \<open>0\<close> and \<open>1\<close> and raises any other
  again.
\<close>

definition initServer :: "client \<Rightarrow> server \<Rightarrow> (error + unit) \<times> server \<times> client" where
  "initServer cl s =
     (if \<not> truthy (regKey s) \<or> \<not> truthy (serNode s)
      then (Inl (SerialDeviceError ''Must define regKey & serNode attributes''), s, cl)
      else
        (case getPortFromReg (regKey s) s (registry cl) of
           (Inl e, r') \<Rightarrow> (Inl e, s, cl\<lparr>registry := r'\<rparr>)
         | (Inr p, r') \<Rightarrow>
            (let s1 = s\<lparr>port := Some p\<rparr>;
                 cl1 = cl\<lparr>registry := r'\<rparr>;
                 attempt =
                   (case findSerial (the (serNode s1)) cl1 of
                      Inl e \<Rightarrow> (Inl e, s1)
                    | Inr serStr \<Rightarrow> initSerial serStr p cl1 s1)
             in case attempt of
                  (Inr u, s2) \<Rightarrow> (Inr (), s2, cl1)
                | (Inl e, s2) \<Rightarrow>
                   (case serial_connection_code e of
                      None \<Rightarrow> (Inl e, s2, cl1)
                    | Some code \<Rightarrow>
                       (if code = 0 \<or> code = 1 then (Inr (), s2\<lparr>ser := None\<rparr>, cl1)
                        else (Inl e, s2\<lparr>ser := None\<rparr>, cl1))))))"

text \<open>\<open>HV500Server.initServer\<close>: the base start-up, then \<open>IDN = regKey[-5:]\<close>.\<close>

definition hv500_initServer :: "client \<Rightarrow> server \<Rightarrow> (error + unit) \<times> server \<times> client" where
  "hv500_initServer cl s =
     (case initServer cl s of
        (Inl e, s', cl') \<Rightarrow> (Inl e, s', cl')
      | (Inr u, s', cl') \<Rightarrow>
         (Inr (), s'\<lparr>IDN := map_option (\<lambda>k. drop (length k - 5) k) (regKey s')\<rparr>, cl'))"

section \<open>\<open>TCPServer\<close>\<close>

text \<open>
  \<open>get_address\<close> looks the key up among the keys of \<open>Ports\<close> by list membership, and
  raises plain \<open>Exception\<close>s.
\<close>

definition get_address :: "string \<Rightarrow> registry \<Rightarrow> (error + string) \<times> registry" where
  "get_address key r =
     (let current_directory = reg_pwd r in
      case reg_cd ['''', ''Ports''] r of
        Inl e \<Rightarrow> (Inl (PyException (''Cannot find '' @ APOS @ ''Ports'' @ APOS @ '' directory in registry.'')), r)
      | Inr r1 \<Rightarrow>
         (case reg_dir r1 of
            Inl e \<Rightarrow> (Inl e, r1)
          | Inr keys \<Rightarrow>
             (if key \<in> set (snd keys)
              then (case reg_get key r1 of
                      Inl e \<Rightarrow> (Inl e, r1)
                    | Inr address \<Rightarrow> (Inr address, reg_restore current_directory r1))
              else (Inl (PyException (''Cannot find key '' @ APOS @ key @ APOS @ '' in '' @ APOS @ ''Ports''
                       @ APOS @ '' directory.'')),
                    reg_restore current_directory r1))))"







section \<open>Decoding the voltage payload\<close>

text \<open>
  Modelled from the spec: the decoding of the payload of a set command, which the device
  performs and the repository does not contain. It is the inverse of
  \<open>(volts + 500) / 1000\<close> on the decimal number the string writes: digits, a point,
  digits.
\<close>

definition digit_val :: "char \<Rightarrow> nat option" where
  "digit_val c = map_of (zip ''0123456789'' [0, 1, 2, 3, 4, 5, 6, 7, 8, 9]) c"

fun parse_digits :: "nat \<Rightarrow> string \<Rightarrow> nat option" where
  "parse_digits acc [] = Some acc"
| "parse_digits acc (c # cs) =
     (case digit_val c of None \<Rightarrow> None | Some d \<Rightarrow> parse_digits (10 * acc + d) cs)"

definition parse_decimal :: "string \<Rightarrow> rat option" where
  "parse_decimal s =
     (let ip = takeWhile (\<lambda>c. c \<noteq> CHR ''.'') s;
          fp = drop (length ip + 1) s
      in if ip = [] \<or> fp = [] then None
         else (case parse_digits 0 ip of
                 None \<Rightarrow> None
               | Some i \<Rightarrow>
                  (case parse_digits 0 fp of
                     None \<Rightarrow> None
                   | Some f \<Rightarrow> Some (of_nat i + of_nat f / 10 ^ length fp))))"

definition kw_to_voltage :: "string \<Rightarrow> rat option" where
  "kw_to_voltage s = map_option (\<lambda>d. d * 1000 - 500) (parse_decimal s)"

section \<open>Example registries and clients\<close>

text \<open>
  A registry with a root, a \<open>Servers\<close> directory and a \<open>Ports\<close> directory holding the
  given keys, and one without \<open>Ports\<close>; both report a missing directory with code \<open>17\<close>.
\<close>

definition ports_registry :: "path \<Rightarrow> (string \<times> string) list \<Rightarrow> registry" where
  "ports_registry cur kvs =
     \<lparr>cursor = cur,
      dirs = [(['''', ''Ports''], ([], kvs)),
              (['''', ''Servers''], ([], [])),
              ([''''], ([''Ports'', ''Servers''], []))],
      nodir_code = 17, nokey_code = 21\<rparr>"

definition bare_registry :: "path \<Rightarrow> registry" where
  "bare_registry cur =
     \<lparr>cursor = cur,
      dirs = [(['''', ''Servers''], ([], [])), ([''''], ([''Servers''], []))],
      nodir_code = 17, nokey_code = 21\<rparr>"

definition lab_client :: "registry \<Rightarrow> (int \<times> string) list \<Rightarrow> client" where
  "lab_client r servers = \<lparr>registry = r, manager_servers = servers, openable = [(''labpc Serial Server'', ''COM3'')]\<rparr>"

section \<open>Substrings\<close>

lemma starts_with_iff: "starts_with sub s \<longleftrightarrow> (\<exists>q. s = sub @ q)"
  by (induction sub s rule: starts_with.induct) auto

lemma str_in_iff: "str_in sub s \<longleftrightarrow> (\<exists>p q. s = p @ sub @ q)"
proof (induction s)
  case Nil
  then show ?case by auto
next
  case (Cons b bs)
  note IH = Cons.IH
  show ?case
  proof
    assume "str_in sub (b # bs)"
    then consider "starts_with sub (b # bs)" | "str_in sub bs" by auto
    then show "\<exists>p q. b # bs = p @ sub @ q"
    proof cases
      case 1
      then obtain q where "b # bs = sub @ q" by (auto simp: starts_with_iff)
      then have "b # bs = [] @ sub @ q" by simp
      then show ?thesis by blast
    next
      case 2
      with IH obtain p q where "bs = p @ sub @ q" by blast
      then have "b # bs = (b # p) @ sub @ q" by simp
      then show ?thesis by blast
    qed
  next
    assume "\<exists>p q. b # bs = p @ sub @ q"
    then obtain p q where pq: "b # bs = p @ sub @ q" by blast
    show "str_in sub (b # bs)"
    proof (cases p)
      case Nil
      with pq have "starts_with sub (b # bs)" by (auto simp: starts_with_iff)
      then show ?thesis by simp
    next
      case (Cons a p')
      with pq have "bs = p' @ sub @ q" by simp
      with IH have "str_in sub bs" by blast
      then show ?thesis by simp
    qed
  qed
qed

section \<open>Evaluation lemmas\<close>

lemma floor_rat_numeral: "\<lfloor>(numeral a :: rat) / numeral b\<rfloor> = numeral a div numeral b"
  by (metis floor_divide_of_int_eq of_int_numeral)

lemma ceiling_rat_numeral:
  "\<lceil>(numeral a :: rat) / numeral b\<rceil> = - (- numeral a div numeral b)"
  by (metis ceiling_def floor_divide_of_int_eq minus_divide_left of_int_minus of_int_numeral)

lemmas float_eval =
  voltage_to_kw_def round_double_def ilog2_def pow2_def round_half_even_def compute_bitlen
  fixed6_def pad6_def str_nat.simps digit_char_def Let_def floor_rat_numeral ceiling_rat_numeral

lemmas hv500_eval =
  hv500_connected_def HV500Server_def float_of_reply_def ser_write_def ser_read_line_def
  channel_to_str_def str_int_def str_nat.simps digit_char_def CR_def LF_def VLIM_def

lemma voltage_to_kw_zero: "voltage_to_kw (Finite 0) = ''0.500000''"
  by (simp add: float_eval)

lemma voltage_to_kw_upper: "voltage_to_kw (Finite 300) = ''0.800000''"
  by (simp add: float_eval)

lemma voltage_to_kw_lower: "voltage_to_kw (Finite (- 300)) = ''0.200000''"
  by (simp add: float_eval)

section \<open>Channel validation in \<open>get_voltage\<close>\<close>

text \<open>
  C1, as stated, fails: with a handle held, \<open>get_voltage(17)\<close> raises nothing, writes
  \<open>HV264 Q17\<close> and a carriage return to the serial handle, and reads a line from it.
\<close>

theorem get_voltage_out_of_range_counterexample:
  "fst (get_voltage float_of_reply 17 (hv500_connected [''12.50'' @ LF])) = Inr (Finite (25 / 2))
   \<and> map_option wire (ser (snd (get_voltage float_of_reply 17 (hv500_connected [''12.50'' @ LF]))))
       = Some [Write (''HV264 Q17'' @ CR), ReadLine]"
  by (simp add: get_voltage_def hv500_eval)

text \<open>
  C1, amended. \<open>get_voltage\<close> does not check the channel: for every integer channel,
  inside \<open>[1,16]\<close> or not, with a handle held and \<open>IDN\<close> set it writes
  \<open>IDN\<close>, \<open>" Q"\<close>, \<open>channel_to_str channel\<close> and a carriage return, reads one line, and
  returns \<open>float\<close> of the line without its last character; the only error it raises then
  is the \<open>ValueError\<close> of that conversion.
\<close>

theorem get_voltage_no_channel_check:
  "ser s = Some c \<Longrightarrow> IDN s = Some idn \<Longrightarrow>
     (\<exists>c'. ser (snd (get_voltage pyfloat_of channel s)) = Some c'
         \<and> wire c' = wire c @ [Write (idn @ '' Q'' @ channel_to_str channel @ CR), ReadLine])
     \<and> fst (get_voltage pyfloat_of channel s)
         = (case pyfloat_of (butlast (case pending c of [] \<Rightarrow> [] | l # ls \<Rightarrow> l)) of
              None \<Rightarrow> Inl ValueError
            | Some v \<Rightarrow> Inr v)"
  by (simp add: get_voltage_def ser_write_def ser_read_line_def Let_def
           split: list.splits option.splits)

theorem get_voltage_no_channel_check_witness:
  "ser (hv500_connected [''12.50'' @ LF]) = Some \<lparr>ID = 7, wire = [], pending = [''12.50'' @ LF]\<rparr>
   \<and> IDN (hv500_connected [''12.50'' @ LF]) = Some ''HV264''
   \<and> (\<exists>c'. ser (snd (get_voltage float_of_reply (- 3) (hv500_connected [''12.50'' @ LF]))) = Some c'
         \<and> wire c' = [Write (''HV264 Q-3'' @ CR), ReadLine])
   \<and> fst (get_voltage float_of_reply (- 3) (hv500_connected [''12.50'' @ LF])) = Inr (Finite (25 / 2))"
  using get_voltage_no_channel_check
    [of "hv500_connected [''12.50'' @ LF]" "\<lparr>ID = 7, wire = [], pending = [''12.50'' @ LF]\<rparr>"
        "''HV264''" float_of_reply "- 3"]
  by (simp add: hv500_eval)

section \<open>The voltage bound in \<open>set_voltage\<close>\<close>

text \<open>
  C2. \<open>set_voltage\<close> raises \<open>ValueError\<close> exactly when the voltage is above \<open>300\<close> or below
  \<open>-300\<close> (for a finite voltage: when its magnitude exceeds \<open>300\<close>), and then the server
  state, the serial handle with it, is unchanged. A voltage within the bound, with a
  handle held, issues exactly one write; \<open>300.0\<close> and \<open>-300.0\<close> are within the bound and
  are written as \<open>0.800000\<close> and \<open>0.200000\<close>.
\<close>

theorem set_voltage_bounds:
  "(fst (set_voltage channel v s) = Inl ValueError \<longleftrightarrow> float_gt v 300 \<or> float_lt v (- 300))
   \<and> ((float_gt (Finite x) 300 \<or> float_lt (Finite x) (- 300)) = (\<bar>x\<bar> > 300))
   \<and> (float_gt v 300 \<or> float_lt v (- 300) \<longrightarrow> set_voltage channel v s = (Inl ValueError, s))
   \<and> (ser s = Some c \<and> IDN s = Some idn \<and> \<not> (float_gt v 300 \<or> float_lt v (- 300)) \<longrightarrow>
        set_voltage channel v s =
          (Inr (), s\<lparr>ser := Some (c\<lparr>wire := wire c @
             [Write (idn @ '' CH'' @ channel_to_str channel @ '' '' @ voltage_to_kw v @ CR)]\<rparr>)\<rparr>))
   \<and> (ser s = Some c \<and> IDN s = Some idn \<longrightarrow>
        set_voltage channel (Finite 300) s =
          (Inr (), s\<lparr>ser := Some (c\<lparr>wire := wire c @
             [Write (idn @ '' CH'' @ channel_to_str channel @ '' 0.800000'' @ CR)]\<rparr>)\<rparr>)
      \<and> set_voltage channel (Finite (- 300)) s =
          (Inr (), s\<lparr>ser := Some (c\<lparr>wire := wire c @
             [Write (idn @ '' CH'' @ channel_to_str channel @ '' 0.200000'' @ CR)]\<rparr>)\<rparr>))"
proof -
  have iff: "fst (set_voltage channel v s) = Inl ValueError \<longleftrightarrow> float_gt v 300 \<or> float_lt v (- 300)"
    by (simp add: set_voltage_def VLIM_def Let_def split: option.splits)
  have mag: "(float_gt (Finite x) 300 \<or> float_lt (Finite x) (- 300)) = (\<bar>x\<bar> > 300)"
    by auto
  have err: "float_gt v 300 \<or> float_lt v (- 300) \<longrightarrow> set_voltage channel v s = (Inl ValueError, s)"
    by (simp add: set_voltage_def VLIM_def)
  have ok: "ser s = Some c \<and> IDN s = Some idn \<and> \<not> (float_gt v 300 \<or> float_lt v (- 300)) \<longrightarrow>
        set_voltage channel v s =
          (Inr (), s\<lparr>ser := Some (c\<lparr>wire := wire c @
             [Write (idn @ '' CH'' @ channel_to_str channel @ '' '' @ voltage_to_kw v @ CR)]\<rparr>)\<rparr>)" for v
    by (simp add: set_voltage_def VLIM_def Let_def ser_write_def)
  have edge: "ser s = Some c \<and> IDN s = Some idn \<longrightarrow>
        set_voltage channel (Finite 300) s =
          (Inr (), s\<lparr>ser := Some (c\<lparr>wire := wire c @
             [Write (idn @ '' CH'' @ channel_to_str channel @ '' 0.800000'' @ CR)]\<rparr>)\<rparr>)
      \<and> set_voltage channel (Finite (- 300)) s =
          (Inr (), s\<lparr>ser := Some (c\<lparr>wire := wire c @
             [Write (idn @ '' CH'' @ channel_to_str channel @ '' 0.200000'' @ CR)]\<rparr>)\<rparr>)"
    using ok [of "Finite 300"] ok [of "Finite (- 300)"]
    by (simp add: voltage_to_kw_upper voltage_to_kw_lower)
  from iff mag err ok edge show ?thesis by blast
qed

theorem set_voltage_bounds_witness:
  "float_gt (Finite (3000001 / 10000)) 300
   \<and> set_voltage 1 (Finite (3000001 / 10000)) (hv500_connected []) = (Inl ValueError, hv500_connected [])
   \<and> ser (hv500_connected []) = Some \<lparr>ID = 7, wire = [], pending = []\<rparr>
   \<and> IDN (hv500_connected []) = Some ''HV264''
   \<and> set_voltage 1 (Finite 300) (hv500_connected []) =
        (Inr (), (hv500_connected [])\<lparr>ser := Some \<lparr>ID = 7, wire = [Write (''HV264 CH01 0.800000'' @ CR)], pending = []\<rparr>\<rparr>)
   \<and> set_voltage 16 (Finite (- 300)) (hv500_connected []) =
        (Inr (), (hv500_connected [])\<lparr>ser := Some \<lparr>ID = 7, wire = [Write (''HV264 CH16 0.200000'' @ CR)], pending = []\<rparr>\<rparr>)"
  using set_voltage_bounds
    [of 1 "Finite (3000001 / 10000)" "hv500_connected []" 0 "\<lparr>ID = 7, wire = [], pending = []\<rparr>" "''HV264''"]
    set_voltage_bounds
    [of 1 "Finite 300" "hv500_connected []" 0 "\<lparr>ID = 7, wire = [], pending = []\<rparr>" "''HV264''"]
    set_voltage_bounds
    [of 16 "Finite 300" "hv500_connected []" 0 "\<lparr>ID = 7, wire = [], pending = []\<rparr>" "''HV264''"]
  by (simp add: hv500_eval)

section \<open>Operations without a connection handle\<close>

text \<open>
  C4, as stated, fails: without a handle, \<open>get_voltage\<close> raises \<open>AttributeError\<close>, not
  \<open>SerialConnectionError(2)\<close>.
\<close>

theorem get_voltage_not_connected_counterexample:
  "fst (get_voltage float_of_reply 1 (HV500Server ''labpc'')) = Inl AttributeError
   \<and> fst (get_voltage float_of_reply 1 (HV500Server ''labpc'')) \<noteq> Inl (SerialConnectionError 2)"
  by (simp add: get_voltage_def HV500Server_def)

text \<open>
  C4, amended. When no handle is held, \<open>checkConnection\<close> raises
  \<open>SerialConnectionError(2)\<close>, but \<open>get_voltage\<close> and \<open>set_voltage\<close> do not call it:
  \<open>get_voltage\<close> raises \<open>AttributeError\<close>, \<open>set_voltage\<close> raises \<open>ValueError\<close> for a voltage
  out of bounds and \<open>AttributeError\<close> otherwise. Each fails at once, leaving the server
  state as it was.
\<close>

theorem no_handle_errors:
  "ser s = None \<Longrightarrow>
     checkConnection s = Inl (SerialConnectionError 2)
   \<and> get_voltage pyfloat_of channel s = (Inl AttributeError, s)
   \<and> set_voltage channel v s =
       (Inl (if float_gt v VLIM \<or> float_lt v (- VLIM) then ValueError else AttributeError), s)"
  by (simp add: checkConnection_def get_voltage_def set_voltage_def Let_def)

theorem no_handle_errors_witness:
  "ser (HV500Server ''labpc'') = None
   \<and> checkConnection (HV500Server ''labpc'') = Inl (SerialConnectionError 2)
   \<and> get_voltage float_of_reply 1 (HV500Server ''labpc'') = (Inl AttributeError, HV500Server ''labpc'')
   \<and> set_voltage 1 (Finite 5) (HV500Server ''labpc'') = (Inl AttributeError, HV500Server ''labpc'')"
  using no_handle_errors [of "HV500Server ''labpc''" float_of_reply 1 "Finite 5"]
  by (simp add: HV500Server_def VLIM_def)

section \<open>Port resolution\<close>

lemmas reg_eval =
  getPortFromReg_def get_address_def reg_pwd_def reg_cd_def reg_dir_def reg_get_def
  reg_restore_def port_reg_handler_def lookup_key_def truthy_def ports_registry_def
  bare_registry_def Let_def APOS_def lower_def lower_char_def

lemma filter_keys_empty:
  "filter P (map fst kvs) = [] \<Longrightarrow> find (\<lambda>kv. P (fst kv)) kvs = None"
  by (induction kvs) (auto split: if_splits)

lemma filter_keys_first:
  "filter P (map fst kvs) = k # rest \<Longrightarrow>
     \<exists>v. find (\<lambda>kv. P (fst kv)) kvs = Some (k, v) \<and> map_of kvs k = Some v"
proof (induction kvs)
  case Nil
  then show ?case by simp
next
  case (Cons kv kvs)
  show ?case
  proof (cases "P (fst kv)")
    case True
    with Cons.prems show ?thesis by (cases kv) auto
  next
    case False
    with Cons.prems have rest: "filter P (map fst kvs) = k # rest" by simp
    then have "k \<in> set (filter P (map fst kvs))" by simp
    then have "P k" by simp
    with False have "k \<noteq> fst kv" by auto
    with Cons.IH [OF rest] False show ?thesis by (cases kv) auto
  qed
qed

lemma getPortFromReg_fst_present:
  assumes "lookup_key rk s = Some k"
      and "map_of (dirs r) ['''', ''Ports''] = Some (subs, kvs)"
  shows "fst (getPortFromReg rk s r) =
           (case find (\<lambda>kv. str_in k (fst kv)) kvs of
              None \<Rightarrow> Inl (PortRegError 1)
            | Some kv \<Rightarrow> Inr (snd kv))"
proof (cases "filter (\<lambda>x. str_in k x) (map fst kvs)")
  case Nil
  from filter_keys_empty [OF Nil] Nil assms show ?thesis
    by (simp add: getPortFromReg_def reg_cd_def reg_dir_def reg_pwd_def)
next
  case (Cons key rest)
  from filter_keys_first [OF Cons] obtain v
    where "find (\<lambda>kv. str_in k (fst kv)) kvs = Some (key, v)" and "map_of kvs key = Some v"
    by blast
  with Cons assms show ?thesis
    by (simp add: getPortFromReg_def reg_cd_def reg_dir_def reg_get_def reg_pwd_def)
qed

lemma getPortFromReg_fst_missing:
  assumes "map_of (dirs r) ['''', ''Ports''] = None"
  shows "fst (getPortFromReg rk s r) =
           Inl (if nodir_code r = 17 then PortRegError 0 else LabradError (nodir_code r))"
  using assms by (simp add: getPortFromReg_def reg_cd_def reg_pwd_def port_reg_handler_def)

text \<open>
  C6, as stated, fails for \<open>TCPServer.get_address\<close>: with the keys \<open>HV500_HV264\<close> and
  \<open>OTHER_KEY\<close> under \<open>Ports\<close>, looking up \<open>HV500\<close> raises instead of returning the value
  under \<open>HV500_HV264\<close>.
\<close>

theorem get_address_substring_counterexample:
  "fst (get_address ''HV500''
          (ports_registry ['''', ''Servers''] [(''HV500_HV264'', ''COM3''), (''OTHER_KEY'', ''COM4'')]))
     = Inl (PyException (''Cannot find key '' @ APOS @ ''HV500'' @ APOS @ '' in '' @ APOS
                          @ ''Ports'' @ APOS @ '' directory.''))"
  by (simp add: reg_eval)

text \<open>
  C6, amended. With \<open>k\<close> the key looked for, \<open>getPortFromReg\<close> returns the value stored
  under the first listed key of \<open>Ports\<close> that contains \<open>k\<close> and raises \<open>PortRegError(1)\<close>
  when no key contains it; when \<open>Ports\<close> does not exist it raises \<open>PortRegError(0)\<close> if the
  registry reports that with code \<open>17\<close>, and the registry's error otherwise.
  \<open>get_address\<close> does not match by substring: it returns the value stored under the key
  equal to the one looked for, and raises a plain \<open>Exception\<close> when no listed key is
  equal to it or \<open>Ports\<close> does not exist.
\<close>

theorem port_resolution:
  assumes "lookup_key rk s = Some k"
  shows
    "(map_of (dirs r) ['''', ''Ports''] = Some (subs, kvs) \<longrightarrow>
        fst (getPortFromReg rk s r) =
          (case find (\<lambda>kv. str_in k (fst kv)) kvs of
             None \<Rightarrow> Inl (PortRegError 1)
           | Some kv \<Rightarrow> Inr (snd kv))
      \<and> fst (get_address key r) =
          (case map_of kvs key of
             None \<Rightarrow> Inl (PyException (''Cannot find key '' @ APOS @ key @ APOS @ '' in '' @ APOS
                                        @ ''Ports'' @ APOS @ '' directory.''))
           | Some v \<Rightarrow> Inr v))
   \<and> (map_of (dirs r) ['''', ''Ports''] = None \<longrightarrow>
        fst (getPortFromReg rk s r) =
          Inl (if nodir_code r = 17 then PortRegError 0 else LabradError (nodir_code r))
      \<and> fst (get_address key r) =
          Inl (PyException (''Cannot find '' @ APOS @ ''Ports'' @ APOS @ '' directory in registry.'')))"
proof (intro conjI impI)
  assume p: "map_of (dirs r) ['''', ''Ports''] = Some (subs, kvs)"
  from getPortFromReg_fst_present [OF assms p]
  show "fst (getPortFromReg rk s r) =
          (case find (\<lambda>kv. str_in k (fst kv)) kvs of
             None \<Rightarrow> Inl (PortRegError 1)
           | Some kv \<Rightarrow> Inr (snd kv))" .
  show "fst (get_address key r) =
          (case map_of kvs key of
             None \<Rightarrow> Inl (PyException (''Cannot find key '' @ APOS @ key @ APOS @ '' in '' @ APOS
                                        @ ''Ports'' @ APOS @ '' directory.''))
           | Some v \<Rightarrow> Inr v)"
  proof (cases "map_of kvs key")
    case None
    then have "key \<notin> set (map fst kvs)" by (simp add: map_of_eq_None_iff)
    with None p show ?thesis
      by (simp add: get_address_def reg_cd_def reg_dir_def reg_pwd_def)
  next
    case (Some v)
    then have "key \<in> set (map fst kvs)" by (metis map_of_eq_None_iff option.distinct(1) set_map)
    with Some p show ?thesis
      by (simp add: get_address_def reg_cd_def reg_dir_def reg_get_def reg_pwd_def)
  qed
next
  assume p: "map_of (dirs r) ['''', ''Ports''] = None"
  from getPortFromReg_fst_missing [OF p]
  show "fst (getPortFromReg rk s r) =
          Inl (if nodir_code r = 17 then PortRegError 0 else LabradError (nodir_code r))" .
  from p show "fst (get_address key r) =
          Inl (PyException (''Cannot find '' @ APOS @ ''Ports'' @ APOS @ '' directory in registry.''))"
    by (simp add: get_address_def reg_cd_def reg_pwd_def)
qed

theorem port_resolution_witness:
  "lookup_key (Some ''HV500'') (HV500Server ''labpc'') = Some ''HV500''
   \<and> map_of (dirs (ports_registry ['''', ''Servers''] [(''HV500_HV264'', ''COM3''), (''OTHER_KEY'', ''COM4'')]))
        ['''', ''Ports''] = Some ([], [(''HV500_HV264'', ''COM3''), (''OTHER_KEY'', ''COM4'')])
   \<and> fst (getPortFromReg (Some ''HV500'') (HV500Server ''labpc'')
        (ports_registry ['''', ''Servers''] [(''HV500_HV264'', ''COM3''), (''OTHER_KEY'', ''COM4'')]))
       = Inr ''COM3''
   \<and> fst (get_address ''OTHER_KEY''
        (ports_registry ['''', ''Servers''] [(''HV500_HV264'', ''COM3''), (''OTHER_KEY'', ''COM4'')]))
       = Inr ''COM4''
   \<and> map_of (dirs (bare_registry ['''', ''Servers''])) ['''', ''Ports''] = None
   \<and> fst (getPortFromReg (Some ''HV500'') (HV500Server ''labpc'') (bare_registry ['''', ''Servers'']))
       = Inl (PortRegError 0)"
  using port_resolution
    [of "Some ''HV500''" "HV500Server ''labpc''" "''HV500''"
        "ports_registry ['''', ''Servers''] [(''HV500_HV264'', ''COM3''), (''OTHER_KEY'', ''COM4'')]"
        "[]" "[(''HV500_HV264'', ''COM3''), (''OTHER_KEY'', ''COM4'')]" "''OTHER_KEY''"]
    port_resolution
    [of "Some ''HV500''" "HV500Server ''labpc''" "''HV500''" "bare_registry ['''', ''Servers'']"
        "[]" "[]" "''OTHER_KEY''"]
  by (simp add: lookup_key_def truthy_def ports_registry_def bare_registry_def)

section \<open>The registry cursor\<close>

text \<open>
  C5 fails in \<open>getPortFromReg\<close> on the path where no key matches: \<open>PortRegError(1)\<close> is
  not a \<open>labrad.types.Error\<close>, so the handler that goes back is not run. Started in
  \<open>Servers\<close> with an empty \<open>Ports\<close>, the call raises \<open>PortRegError(1)\<close> and leaves the
  cursor in \<open>Ports\<close>.
\<close>

theorem getPortFromReg_no_match_cursor:
  "cursor (ports_registry ['''', ''Servers''] []) = ['''', ''Servers'']
   \<and> fst (getPortFromReg (Some ''HV500'') (HV500Server ''labpc'') (ports_registry ['''', ''Servers''] []))
       = Inl (PortRegError 1)
   \<and> cursor (snd (getPortFromReg (Some ''HV500'') (HV500Server ''labpc'')
                    (ports_registry ['''', ''Servers''] [])))
       = ['''', ''Ports'']"
  by (simp add: reg_eval)

text \<open>
  On the other paths the cursor is back where it was, for a cursor that is an existing
  directory: in \<open>getPortFromReg\<close> whenever the outcome is not one of the two exceptions
  raised past the handler, and in \<open>get_address\<close> whenever no registry error escapes.
\<close>

lemma reg_restore_cursor:
  "map_of (dirs r) tmp \<noteq> None \<Longrightarrow> cursor (reg_restore tmp r) = tmp"
  by (auto simp: reg_restore_def reg_cd_def split: option.splits)

lemma getPortFromReg_cursor_restored:
  assumes "map_of (dirs r) (cursor r) \<noteq> None"
      and "fst (getPortFromReg rk s r) \<noteq> Inl (PortRegError 1)"
      and "fst (getPortFromReg rk s r) \<noteq> Inl (SerialDeviceError ''name attribute is None'')"
  shows "cursor (snd (getPortFromReg rk s r)) = cursor r"
proof (cases "reg_cd ['''', ''Ports''] r")
  case (Inl e)
  with assms(1) show ?thesis
    by (simp add: getPortFromReg_def port_reg_handler_def reg_pwd_def reg_restore_cursor)
next
  case (Inr r1)
  then have d: "dirs r1 = dirs r"
    by (auto simp: reg_cd_def split: option.splits)
  with assms(1) have restored: "cursor (reg_restore (cursor r) r1) = cursor r"
    by (simp add: reg_restore_cursor)
  from Inr assms(2,3) restored show ?thesis
    by (auto simp: getPortFromReg_def port_reg_handler_def reg_pwd_def Let_def
             split: sum.splits option.splits list.splits if_splits)
qed

lemma get_address_cursor_restored:
  assumes "map_of (dirs r) (cursor r) \<noteq> None"
      and "\<forall>c. fst (get_address key r) \<noteq> Inl (LabradError c)"
  shows "cursor (snd (get_address key r)) = cursor r"
proof (cases "reg_cd ['''', ''Ports''] r")
  case (Inl e)
  then show ?thesis
    by (simp add: get_address_def reg_pwd_def)
next
  case (Inr r1)
  then have d: "dirs r1 = dirs r"
    by (auto simp: reg_cd_def split: option.splits)
  with assms(1) have restored: "cursor (reg_restore (cursor r) r1) = cursor r"
    by (simp add: reg_restore_cursor)
  from Inr assms(2) restored show ?thesis
    by (auto simp: get_address_def reg_pwd_def reg_dir_def reg_get_def Let_def
             split: sum.splits option.splits if_splits)
qed

section \<open>Failures during \<open>initServer\<close>\<close>

lemma findSerial_registry [simp]: "findSerial node (cl\<lparr>registry := r\<rparr>) = findSerial node cl"
  by (simp add: findSerial_def)

lemma findSerial_listed:
  assumes "findSerial node cl = Inr serStr"
  shows "find (\<lambda>i. snd i = serStr) (manager_servers cl) \<noteq> None"
proof -
  from assms obtain i rest
    where f: "filter (\<lambda>i. matchSerial node (snd i)) (manager_servers cl) = i # rest"
      and s: "serStr = snd i"
    by (auto simp: findSerial_def split: list.splits)
  from f have "i \<in> set (filter (\<lambda>i. matchSerial node (snd i)) (manager_servers cl))" by simp
  then have "i \<in> set (manager_servers cl)" by simp
  with s show ?thesis by (cases i) (auto simp: find_None_iff)
qed

text \<open>
  C3, as stated, fails: with no \<open>Ports\<close> directory in the registry, \<open>initServer\<close> does
  not complete; \<open>PortRegError(0)\<close> leaves it.
\<close>

theorem initServer_registry_failure_counterexample:
  "fst (initServer (lab_client (bare_registry ['''', ''Servers'']) [(3, ''labpc Serial Server'')])
          (HV500Server ''labpc''))
     = Inl (PortRegError 0)"
  by (simp add: reg_eval initServer_def lab_client_def HV500Server_def)

text \<open>
  C3, amended. With \<open>regKey\<close> and \<open>serNode\<close> set, a failure of port resolution is not
  caught: whatever \<open>getPortFromReg\<close> raises, \<open>PortRegError(0)\<close> for a missing \<open>Ports\<close>
  (reported with code \<open>17\<close>) and \<open>PortRegError(1)\<close> for no matching key among them, leaves
  \<open>initServer\<close>, the server attributes unchanged. What \<open>initServer\<close> catches are the
  failures after the port is resolved: when no serial server matches
  (\<open>SerialConnectionError(0)\<close>) or the port cannot be opened (\<open>SerialConnectionError(1)\<close>)
  it completes, with the port stored and no handle held.
\<close>

theorem initServer_failures:
  assumes "regKey s = Some k" and "k \<noteq> []" and "truthy (serNode s)"
  shows
    "(\<forall>e r'. getPortFromReg (regKey s) s (registry cl) = (Inl e, r') \<longrightarrow>
        initServer cl s = (Inl e, s, cl\<lparr>registry := r'\<rparr>))
   \<and> (map_of (dirs (registry cl)) ['''', ''Ports''] = None \<and> nodir_code (registry cl) = 17 \<longrightarrow>
        fst (initServer cl s) = Inl (PortRegError 0) \<and> fst (snd (initServer cl s)) = s)
   \<and> (map_of (dirs (registry cl)) ['''', ''Ports''] = Some (subs, kvs)
        \<and> find (\<lambda>kv. str_in k (fst kv)) kvs = None \<longrightarrow>
        fst (initServer cl s) = Inl (PortRegError 1) \<and> fst (snd (initServer cl s)) = s)
   \<and> (\<forall>p r'. getPortFromReg (regKey s) s (registry cl) = (Inr p, r')
        \<and> (findSerial (the (serNode s)) cl = Inl (SerialConnectionError 0)
           \<or> (\<exists>serStr. findSerial (the (serNode s)) cl = Inr serStr \<and> (serStr, p) \<notin> set (openable cl)))
        \<longrightarrow> initServer cl s = (Inr (), s\<lparr>port := Some p, ser := None\<rparr>, cl\<lparr>registry := r'\<rparr>))"
proof -
  from assms have t: "truthy (regKey s)" and lk: "lookup_key (regKey s) s = Some k"
    by (simp_all add: truthy_def lookup_key_def)
  have propagate: "initServer cl s = (Inl e, s, cl\<lparr>registry := r'\<rparr>)"
    if "getPortFromReg (regKey s) s (registry cl) = (Inl e, r')" for e r'
    using that t assms(3) by (simp add: initServer_def)
  have outcome: "fst (initServer cl s) = Inl e \<and> fst (snd (initServer cl s)) = s"
    if "fst (getPortFromReg (regKey s) s (registry cl)) = Inl e" for e
  proof -
    from that have "getPortFromReg (regKey s) s (registry cl)
                      = (Inl e, snd (getPortFromReg (regKey s) s (registry cl)))"
      by (cases "getPortFromReg (regKey s) s (registry cl)") simp
    from propagate [OF this] show ?thesis by simp
  qed
  have missing: "fst (initServer cl s) = Inl (PortRegError 0) \<and> fst (snd (initServer cl s)) = s"
    if "map_of (dirs (registry cl)) ['''', ''Ports''] = None" "nodir_code (registry cl) = 17"
    using that outcome [of "PortRegError 0"] getPortFromReg_fst_missing [of "registry cl" "regKey s" s]
    by simp
  have nokey: "fst (initServer cl s) = Inl (PortRegError 1) \<and> fst (snd (initServer cl s)) = s"
    if "map_of (dirs (registry cl)) ['''', ''Ports''] = Some (subs, kvs)"
       "find (\<lambda>kv. str_in k (fst kv)) kvs = None"
    using that outcome [of "PortRegError 1"] getPortFromReg_fst_present [OF lk that(1)]
    by simp
  have backend: "initServer cl s = (Inr (), s\<lparr>port := Some p, ser := None\<rparr>, cl\<lparr>registry := r'\<rparr>)"
    if "getPortFromReg (regKey s) s (registry cl) = (Inr p, r')"
       "findSerial (the (serNode s)) cl = Inl (SerialConnectionError 0)
        \<or> (\<exists>serStr. findSerial (the (serNode s)) cl = Inr serStr \<and> (serStr, p) \<notin> set (openable cl))"
    for p r'
    using that t assms(3) findSerial_listed [of "the (serNode s)" cl]
    by (auto simp: initServer_def initSerial_def Let_def split: option.splits)
  from propagate missing nokey backend show ?thesis by blast
qed

theorem initServer_failures_witness:
  "regKey (HV500Server ''labpc'') = Some ''HV500_HV264'' \<and> ''HV500_HV264'' \<noteq> []
   \<and> truthy (serNode (HV500Server ''labpc''))
   \<and> map_of (dirs (bare_registry ['''', ''Servers''])) ['''', ''Ports''] = None
   \<and> nodir_code (bare_registry ['''', ''Servers'']) = 17
   \<and> fst (initServer (lab_client (bare_registry ['''', ''Servers'']) []) (HV500Server ''labpc''))
       = Inl (PortRegError 0)
   \<and> map_of (dirs (ports_registry ['''', ''Servers''] [(''OTHER_KEY'', ''COM4'')])) ['''', ''Ports'']
       = Some ([], [(''OTHER_KEY'', ''COM4'')])
   \<and> find (\<lambda>kv. str_in ''HV500_HV264'' (fst kv)) [(''OTHER_KEY'', ''COM4'')] = None
   \<and> fst (initServer (lab_client (ports_registry ['''', ''Servers''] [(''OTHER_KEY'', ''COM4'')]) [])
             (HV500Server ''labpc''))
       = Inl (PortRegError 1)
   \<and> getPortFromReg (regKey (HV500Server ''labpc'')) (HV500Server ''labpc'')
        (ports_registry ['''', ''Servers''] [(''HV500_HV264'', ''COM3'')])
       = (Inr ''COM3'', ports_registry ['''', ''Servers''] [(''HV500_HV264'', ''COM3'')])
   \<and> findSerial ''labpc'' (lab_client (ports_registry ['''', ''Servers''] [(''HV500_HV264'', ''COM3'')]) [])
       = Inl (SerialConnectionError 0)
   \<and> initServer (lab_client (ports_registry ['''', ''Servers''] [(''HV500_HV264'', ''COM3'')]) [])
        (HV500Server ''labpc'')
       = (Inr (), (HV500Server ''labpc'')\<lparr>port := Some ''COM3'', ser := None\<rparr>,
          lab_client (ports_registry ['''', ''Servers''] [(''HV500_HV264'', ''COM3'')]) [])"
  using initServer_failures
    [of "HV500Server ''labpc''" "''HV500_HV264''" "lab_client (bare_registry ['''', ''Servers'']) []"
        "[]" "[]"]
    initServer_failures
    [of "HV500Server ''labpc''" "''HV500_HV264''"
        "lab_client (ports_registry ['''', ''Servers''] [(''OTHER_KEY'', ''COM4'')]) []"
        "[]" "[(''OTHER_KEY'', ''COM4'')]"]
    initServer_failures
    [of "HV500Server ''labpc''" "''HV500_HV264''"
        "lab_client (ports_registry ['''', ''Servers''] [(''HV500_HV264'', ''COM3'')]) []"
        "[]" "[]"]
  by (simp add: reg_eval HV500Server_def lab_client_def findSerial_def)

section \<open>Reading from the socket\<close>






section \<open>The voltage encoding\<close>

subsection \<open>Reading back what \<open>str_nat\<close> and \<open>fixed6\<close> write\<close>

lemma digit_val_digit_char: "d < 10 \<Longrightarrow> digit_val (digit_char d) = Some d"
proof -
  assume "d < 10"
  then have "d \<in> {0, 1, 2, 3, 4, 5, 6, 7, 8, 9}" by auto
  then show ?thesis
    by (auto simp: digit_val_def digit_char_def)
qed

lemma digit_char_not_point: "digit_char d \<noteq> CHR ''.''"
proof -
  have "d mod 10 \<in> {0, 1, 2, 3, 4, 5, 6, 7, 8, 9}" by (simp; presburger)
  then show ?thesis
    by (auto simp: digit_char_def)
qed

lemma parse_digits_append:
  "parse_digits acc (xs @ ys) = (case parse_digits acc xs of None \<Rightarrow> None | Some a \<Rightarrow> parse_digits a ys)"
  by (induction xs arbitrary: acc) (auto split: option.splits)

lemma parse_digits_str_nat:
  "parse_digits acc (str_nat n) = Some (acc * 10 ^ length (str_nat n) + n)"
proof (induction n arbitrary: acc rule: str_nat.induct)
  case (1 n)
  show ?case
  proof (cases "n < 10")
    case True
    then show ?thesis
      by (subst (1 2) str_nat.simps) (simp add: digit_val_digit_char)
  next
    case False
    have d: "digit_val (digit_char (n mod 10)) = Some (n mod 10)"
      by (simp add: digit_val_digit_char)
    from False 1 [OF False] d show ?thesis
      by (subst (1 2) str_nat.simps) (simp add: parse_digits_append algebra_simps)
  qed
qed

lemma parse_digits_zeros: "parse_digits acc (replicate j (CHR ''0'')) = Some (acc * 10 ^ j)"
  by (induction j arbitrary: acc) (auto simp: digit_val_def)

lemma length_str_nat: "0 < j \<Longrightarrow> n < 10 ^ j \<Longrightarrow> length (str_nat n) \<le> j"
proof (induction n arbitrary: j rule: str_nat.induct)
  case (1 n)
  show ?case
  proof (cases "n < 10")
    case True
    with 1(2) show ?thesis by (subst str_nat.simps) simp
  next
    case False
    with 1(2,3) have "1 < j" by (cases "j = 1") auto
    then obtain i where j: "j = Suc i" and i: "0 < i" by (cases j) auto
    with 1(3) have "n div 10 < 10 ^ i" by (simp add: less_mult_imp_div_less mult.commute)
    from 1(1) [OF False i this] False j show ?thesis
      by (subst str_nat.simps) simp
  qed
qed

lemma str_nat_no_point: "CHR ''.'' \<notin> set (str_nat n)"
proof (induction n rule: str_nat.induct)
  case (1 n)
  have p: "CHR ''.'' \<noteq> digit_char d" for d
    using digit_char_not_point [of d] by simp
  show ?case
  proof (cases "n < 10")
    case True
    then show ?thesis by (subst str_nat.simps) (simp add: p)
  next
    case False
    with 1 [OF False] show ?thesis by (subst str_nat.simps) (simp add: p)
  qed
qed

lemma str_nat_nonempty: "str_nat n \<noteq> []"
  by (subst str_nat.simps) simp

lemma parse_decimal_fixed6: "parse_decimal (fixed6 n) = Some (of_nat n / 1000000)"
proof -
  let ?a = "str_nat (n div 1000000)" and ?b = "str_nat (n mod 1000000)"
  have len: "length ?b \<le> 6"
    using length_str_nat [of 6 "n mod 1000000"] by simp
  then have l6: "length (pad6 ?b) = 6" by (simp add: pad6_def)
  have nop: "\<forall>x\<in>set ?a. x \<noteq> CHR ''.''"
    using str_nat_no_point [of "n div 1000000"] by blast
  have tw: "takeWhile (\<lambda>c. c \<noteq> CHR ''.'') (fixed6 n) = ?a"
    unfolding fixed6_def using nop by (simp add: takeWhile_tail)
  have dr: "drop (length ?a + 1) (fixed6 n) = pad6 ?b"
    by (simp add: fixed6_def)
  have pa: "parse_digits 0 ?a = Some (n div 1000000)"
    by (simp add: parse_digits_str_nat)
  have pb: "parse_digits 0 (pad6 ?b) = Some (n mod 1000000)"
    by (simp add: pad6_def parse_digits_append parse_digits_zeros parse_digits_str_nat)
  have ne: "pad6 ?b \<noteq> []" using l6 by auto
  have lf: "length (fixed6 n) = length ?a + 7" using l6 by (simp add: fixed6_def)
  have "parse_decimal (fixed6 n) = Some (of_nat (n div 1000000) + of_nat (n mod 1000000) / 1000000)"
    using tw dr pa pb l6 ne lf str_nat_nonempty [of "n div 1000000"]
    by (simp add: parse_decimal_def Let_def)
  also have "(of_nat (n div 1000000) + of_nat (n mod 1000000) / 1000000 :: rat) = of_nat n / 1000000"
  proof -
    have "of_nat n = (of_nat (n div 1000000 * 1000000 + n mod 1000000) :: rat)" by simp
    also have "\<dots> = of_nat (n div 1000000) * 1000000 + of_nat (n mod 1000000)"
      by (simp only: of_nat_add of_nat_mult of_nat_numeral)
    finally show ?thesis by (simp add: field_simps)
  qed
  finally show ?thesis .
qed

subsection \<open>The rounding error of the binary64 operations\<close>

lemma round_half_even_error: "\<bar>of_int (round_half_even x) - x\<bar> \<le> 1 / 2"
proof -
  have "of_int \<lfloor>x\<rfloor> \<le> x" and "x < of_int \<lfloor>x\<rfloor> + 1" by linarith+
  then show ?thesis
    by (auto simp: round_half_even_def Let_def)
qed

lemma pow2_powi: "pow2 e = 2 powi e"
  by (simp add: pow2_def power_int_def inverse_eq_divide power_one_over)

lemma pow2_pos: "0 < pow2 e"
  by (simp add: pow2_powi)

lemma pow2_mono: "a \<le> b \<Longrightarrow> pow2 a \<le> pow2 b"
  by (simp add: pow2_powi power_int_increasing)

lemma pow2_Suc: "pow2 (e + 1) = 2 * pow2 e"
  by (simp add: pow2_powi power_int_add)

lemma ilog2_bounds:
  assumes "0 < x"
  shows "pow2 (ilog2 x) \<le> x \<and> x < pow2 (ilog2 x + 1)"
proof (cases "1 \<le> x")
  case True
  then have f: "0 < \<lfloor>x\<rfloor>" by simp
  let ?b = "bitlen \<lfloor>x\<rfloor>"
  from bitlen_bounds [OF f] have lo: "2 ^ nat (?b - 1) \<le> \<lfloor>x\<rfloor>" and hi: "\<lfloor>x\<rfloor> < 2 ^ nat ?b"
    by simp_all
  have b1: "1 \<le> ?b" using f by (simp add: bitlen_alt_def)
  from lo have "(of_int (2 ^ nat (?b - 1)) :: rat) \<le> of_int \<lfloor>x\<rfloor>" by (simp only: of_int_le_iff)
  also have "\<dots> \<le> x" by simp
  finally have l: "pow2 (?b - 1) \<le> x" using b1 by (simp add: pow2_def)
  from hi have "\<lfloor>x\<rfloor> + 1 \<le> 2 ^ nat ?b" by simp
  then have "(of_int (\<lfloor>x\<rfloor> + 1) :: rat) \<le> of_int (2 ^ nat ?b)" by (simp only: of_int_le_iff)
  moreover have "x < of_int (\<lfloor>x\<rfloor> + 1)" by linarith
  ultimately have "x < of_int (2 ^ nat ?b)" by linarith
  then have h: "x < pow2 ?b" using b1 by (simp add: pow2_def)
  from True l h show ?thesis by (simp add: ilog2_def)
next
  case False
  with assms have y1: "1 < 1 / x" by simp
  define c where "c = \<lceil>1 / x\<rceil>"
  define b where "b = bitlen (c - 1)"
  have cu: "1 / x \<le> of_int c" and cl: "of_int c - 1 < 1 / x"
    unfolding c_def by linarith+
  from y1 cu have "1 < (of_int c :: rat)" by linarith
  then have c1: "0 < c - 1" by simp
  from bitlen_bounds [OF c1] have lo: "2 ^ nat (b - 1) \<le> c - 1" and hi: "c - 1 < 2 ^ nat b"
    by (simp_all add: b_def)
  have b1: "1 \<le> b" using c1 by (simp add: b_def bitlen_alt_def)
  from hi have "c \<le> 2 ^ nat b" by simp
  then have "(of_int c :: rat) \<le> of_int (2 ^ nat b)" by (simp only: of_int_le_iff)
  then have "(of_int c :: rat) \<le> 2 ^ nat b" by simp
  with cu have "1 / x \<le> 2 ^ nat b" by linarith
  with assms have l: "1 / 2 ^ nat b \<le> x"
    by (simp add: field_simps)
  from lo have "(of_int (2 ^ nat (b - 1)) :: rat) \<le> of_int (c - 1)" by (simp only: of_int_le_iff)
  then have "(2 ^ nat (b - 1) :: rat) \<le> of_int c - 1" by simp
  with cl have "2 ^ nat (b - 1) < 1 / x" by linarith
  with assms have h: "x < 1 / 2 ^ nat (b - 1)"
    by (simp add: field_simps)
  have e: "pow2 (- b) = 1 / 2 ^ nat b" using b1 by (simp add: pow2_def)
  have e1: "pow2 (- b + 1) = 1 / 2 ^ nat (b - 1)"
  proof (cases "b = 1")
    case True
    then show ?thesis by (simp add: pow2_def)
  next
    case False
    with b1 have "- b + 1 < 0" by simp
    moreover have "- (- b + 1) = b - 1" by simp
    ultimately show ?thesis by (simp add: pow2_def)
  qed
  from \<open>\<not> 1 \<le> x\<close> l h e e1 show ?thesis
    by (simp add: ilog2_def c_def [symmetric] b_def [symmetric])
qed

lemma round_double_near:
  assumes "x \<noteq> 0" and "ilog2 \<bar>x\<bar> \<le> E" and "- 1022 \<le> E"
      and "\<bar>x\<bar> + pow2 (E - 52) / 2 < pow2 1024"
  shows "\<exists>y. round_double x = Finite y \<and> \<bar>y - x\<bar> \<le> pow2 (E - 52) / 2"
proof -
  define e where "e = max (ilog2 \<bar>x\<bar>) (- 1022)"
  define u where "u = pow2 (e - 52)"
  define y where "y = of_int (round_half_even (x / u)) * u"
  have up: "0 < u" by (simp add: u_def pow2_pos)
  from assms(2,3) have "e \<le> E" by (simp add: e_def)
  then have uE: "u \<le> pow2 (E - 52)" by (simp add: u_def pow2_mono)
  have "\<bar>of_int (round_half_even (x / u)) - x / u\<bar> \<le> 1 / 2" by (rule round_half_even_error)
  then have "\<bar>of_int (round_half_even (x / u)) - x / u\<bar> * u \<le> 1 / 2 * u"
    using up by (simp only: mult_le_cancel_right_pos)
  moreover have "\<bar>of_int (round_half_even (x / u)) - x / u\<bar> * u = \<bar>y - x\<bar>"
  proof -
    have "\<bar>of_int (round_half_even (x / u)) - x / u\<bar> * u
            = \<bar>(of_int (round_half_even (x / u)) - x / u) * u\<bar>"
      using up by (simp add: abs_mult)
    also have "(of_int (round_half_even (x / u)) - x / u) * u = y - x"
      using up by (simp add: y_def algebra_simps)
    finally show ?thesis .
  qed
  ultimately have err: "\<bar>y - x\<bar> \<le> u / 2" by simp
  with uE have errE: "\<bar>y - x\<bar> \<le> pow2 (E - 52) / 2" by simp
  then have "\<bar>y\<bar> \<le> \<bar>x\<bar> + pow2 (E - 52) / 2" by linarith
  with assms(4) have "\<not> pow2 1024 \<le> \<bar>y\<bar>" by linarith
  with assms(1) have "round_double x = Finite y"
    by (simp add: round_double_def Let_def e_def [symmetric] u_def [symmetric] y_def [symmetric])
  with errE show ?thesis by blast
qed

subsection \<open>Encoding a voltage within the bound\<close>

lemma round_half_even_nonneg: "0 \<le> x \<Longrightarrow> 0 \<le> round_half_even x"
proof -
  assume "0 \<le> x"
  moreover have "\<bar>of_int (round_half_even x) - x\<bar> \<le> 1 / 2" by (rule round_half_even_error)
  ultimately have "(- 1 :: rat) < of_int (round_half_even x)" by linarith
  then have "- 1 < round_half_even x" by (simp only: of_int_less_iff [symmetric] of_int_minus of_int_1)
  then show ?thesis by simp
qed

lemma voltage_to_kw_in_range:
  assumes "- 300 \<le> v" and "v \<le> 300"
  shows "\<exists>n. voltage_to_kw (Finite v) = fixed6 n
             \<and> \<bar>of_nat n / 1000000 - (v + 500) / 1000\<bar> \<le> 1 / 1000000"
proof -
  define x1 where "x1 = v + 500"
  from assms have r1: "200 \<le> x1" "x1 \<le> 800" by (simp_all add: x1_def)
  then have "\<lfloor>x1\<rfloor> < 2 ^ nat 10" by (simp add: floor_less_iff)
  then have "bitlen \<lfloor>x1\<rfloor> \<le> 10" by (simp only: bitlen_le_iff_power) simp
  with r1 have e1: "ilog2 \<bar>x1\<bar> \<le> 9" by (simp add: ilog2_def)
  have p43: "pow2 (9 - 52) / 2 \<le> 1 / 1000000000000" by (simp add: pow2_def)
  have big: "(1000 :: rat) < pow2 1024" by (simp add: pow2_def)
  from r1 p43 big have "\<bar>x1\<bar> + pow2 (9 - 52) / 2 < pow2 1024" by linarith
  from round_double_near [OF _ e1 _ this] r1 obtain y1
    where y1: "round_double x1 = Finite y1" and d1: "\<bar>y1 - x1\<bar> \<le> pow2 (9 - 52) / 2"
    by auto
  define x2 where "x2 = y1 / 1000"
  from r1 d1 p43 have ry: "199 \<le> y1" "y1 \<le> 801" by linarith+
  then have r2: "0 < x2" "x2 < 1" by (simp_all add: x2_def)
  then have e2: "ilog2 \<bar>x2\<bar> \<le> 0" by (simp add: ilog2_def bitlen_nonneg)
  have p52: "pow2 (0 - 52) / 2 \<le> 1 / 1000000000000" by (simp add: pow2_def)
  from r2 p52 big have "\<bar>x2\<bar> + pow2 (0 - 52) / 2 < pow2 1024" by linarith
  from round_double_near [OF _ e2 _ this] r2 obtain d
    where d: "round_double x2 = Finite d" and d2: "\<bar>d - x2\<bar> \<le> pow2 (0 - 52) / 2"
    by auto
  from ry have "199 / 1000 \<le> x2" by (simp add: x2_def)
  with d2 p52 have dpos: "0 < d" by linarith
  define n where "n = nat (round_half_even (d * 1000000))"
  from dpos have "0 \<le> round_half_even (d * 1000000)" by (simp add: round_half_even_nonneg)
  then have nn: "(of_nat n :: rat) = of_int (round_half_even (d * 1000000))" by (simp add: n_def)
  have "\<bar>of_int (round_half_even (d * 1000000)) - d * 1000000\<bar> \<le> 1 / 2"
    by (rule round_half_even_error)
  with nn have d3: "\<bar>of_nat n / 1000000 - d\<bar> \<le> 1 / 2000000"
    by (simp add: field_simps abs_le_iff)
  have "voltage_to_kw (Finite v) = fixed6 n"
    using y1 d dpos by (simp add: voltage_to_kw_def x1_def x2_def n_def)
  moreover have "\<bar>of_nat n / 1000000 - (v + 500) / 1000\<bar> \<le> 1 / 1000000"
  proof -
    have eq: "x2 - x1 / 1000 = (y1 - x1) / 1000" by (simp add: x2_def diff_divide_distrib)
    from d1 p43 have small: "\<bar>y1 - x1\<bar> \<le> 1 / 1000000000000" by linarith
    from small have "\<bar>(y1 - x1) / 1000\<bar> \<le> 1 / 1000000000000"
      by (cases "0 \<le> y1 - x1") simp_all
    then have "\<bar>x2 - x1 / 1000\<bar> \<le> 1 / 1000000000000" unfolding eq .
    with d2 p52 d3 have "\<bar>of_nat n / 1000000 - x1 / 1000\<bar> \<le> 1 / 1000000" by linarith
    then show ?thesis by (simp add: x1_def)
  qed
  ultimately show ?thesis by blast
qed

lemma kw_to_voltage_in_range:
  assumes "- 300 \<le> v" and "v \<le> 300"
  shows "\<exists>q. kw_to_voltage (voltage_to_kw (Finite v)) = Some q \<and> \<bar>q - v\<bar> \<le> 1 / 1000"
proof -
  from voltage_to_kw_in_range [OF assms] obtain n
    where s: "voltage_to_kw (Finite v) = fixed6 n"
      and e: "\<bar>of_nat n / 1000000 - (v + 500) / 1000\<bar> \<le> 1 / 1000000"
    by blast
  have "kw_to_voltage (fixed6 n) = Some (of_nat n / 1000000 * 1000 - 500)"
    by (simp add: kw_to_voltage_def parse_decimal_fixed6)
  moreover from e have "\<bar>(of_nat n / 1000000 * 1000 - 500) - v\<bar> \<le> 1 / 1000"
    by (simp add: abs_le_iff field_simps)
  ultimately show ?thesis using s by simp
qed

text \<open>
  C9. \<open>voltage_to_kw\<close> writes \<open>(v + 500) / 1000\<close> with exactly six decimals: \<open>0\<close> is
  written \<open>0.500000\<close>, \<open>-300\<close> is written \<open>0.200000\<close> and \<open>300\<close> is written \<open>0.800000\<close>. For
  every voltage from \<open>-300\<close> to \<open>300\<close> the string is an integer part, a point and six
  digits, the number it writes is within \<open>10^-6\<close> of \<open>(v + 500) / 1000\<close>, and decoding it
  gives the voltage back within \<open>10 mV\<close>.
\<close>

theorem voltage_to_kw_roundtrip:
  "voltage_to_kw (Finite 0) = ''0.500000''
   \<and> voltage_to_kw (Finite (- 300)) = ''0.200000''
   \<and> voltage_to_kw (Finite 300) = ''0.800000''
   \<and> (- 300 \<le> v \<and> v \<le> 300 \<longrightarrow>
        (\<exists>n q. voltage_to_kw (Finite v)
                  = str_nat (n div 1000000) @ ''.'' @ pad6 (str_nat (n mod 1000000))
             \<and> length (pad6 (str_nat (n mod 1000000))) = 6
             \<and> \<bar>of_nat n / 1000000 - (v + 500) / 1000\<bar> \<le> 1 / 1000000
             \<and> kw_to_voltage (voltage_to_kw (Finite v)) = Some q
             \<and> \<bar>q - v\<bar> \<le> 1 / 100))"
proof (intro conjI impI)
  show "voltage_to_kw (Finite 0) = ''0.500000''" by (rule voltage_to_kw_zero)
  show "voltage_to_kw (Finite (- 300)) = ''0.200000''" by (rule voltage_to_kw_lower)
  show "voltage_to_kw (Finite 300) = ''0.800000''" by (rule voltage_to_kw_upper)
next
  assume range: "- 300 \<le> v \<and> v \<le> 300"
  then have lo: "- 300 \<le> v" and hi: "v \<le> 300" by simp_all
  from voltage_to_kw_in_range [OF lo hi] obtain n
    where s: "voltage_to_kw (Finite v) = fixed6 n"
      and e: "\<bar>of_nat n / 1000000 - (v + 500) / 1000\<bar> \<le> 1 / 1000000"
    by blast
  from kw_to_voltage_in_range [OF lo hi] obtain q
    where q: "kw_to_voltage (voltage_to_kw (Finite v)) = Some q" and c: "\<bar>q - v\<bar> \<le> 1 / 1000"
    by blast
  have "length (str_nat (n mod 1000000)) \<le> 6"
    using length_str_nat [of 6 "n mod 1000000"] by simp
  then have six: "length (pad6 (str_nat (n mod 1000000))) = 6" by (simp add: pad6_def)
  from c have "\<bar>q - v\<bar> \<le> 1 / 100" by linarith
  with s e q six
  show "\<exists>n q. voltage_to_kw (Finite v)
                  = str_nat (n div 1000000) @ ''.'' @ pad6 (str_nat (n mod 1000000))
             \<and> length (pad6 (str_nat (n mod 1000000))) = 6
             \<and> \<bar>of_nat n / 1000000 - (v + 500) / 1000\<bar> \<le> 1 / 1000000
             \<and> kw_to_voltage (voltage_to_kw (Finite v)) = Some q
             \<and> \<bar>q - v\<bar> \<le> 1 / 100"
    unfolding fixed6_def by blast
qed

theorem voltage_to_kw_roundtrip_witness:
  "(- 300 :: rat) \<le> 401 / 4 \<and> (401 / 4 :: rat) \<le> 300
   \<and> voltage_to_kw (Finite (401 / 4)) = ''0.600250''
   \<and> kw_to_voltage ''0.600250'' = Some (401 / 4)
   \<and> (\<exists>q. kw_to_voltage (voltage_to_kw (Finite (401 / 4))) = Some q \<and> \<bar>q - 401 / 4\<bar> \<le> 1 / 100)"
proof -
  have enc: "voltage_to_kw (Finite (401 / 4)) = ''0.600250''"
    by (simp add: float_eval)
  have dec: "kw_to_voltage ''0.600250'' = Some (401 / 4)"
    by (simp add: kw_to_voltage_def parse_decimal_def digit_val_def)
  from voltage_to_kw_roundtrip [of "401 / 4"] enc dec show ?thesis
    by auto
qed

section \<open>Connection manager: backend-unavailable events\<close>

text \<open>
  C7. For every held connection handle and every backend-unavailable event: when the
  event's identity differs from the identity of the held handle the handle is kept (the
  whole server state is unchanged), and when it is the identity of the held handle the
  handle is dropped.
\<close>

theorem serverDisconnected_identity:
  "ser s = Some h \<Longrightarrow>
     (ID h \<noteq> ident \<longrightarrow> serverDisconnected ident nm s = s \<and> ser (serverDisconnected ident nm s) = Some h)
   \<and> (ID h = ident \<longrightarrow> ser (serverDisconnected ident nm s) = None)"
  by (simp add: serverDisconnected_def)

theorem serverDisconnected_identity_witness:
  "ser \<lparr>name = None, port = None, regKey = None, serNode = None, baudrate = None,
        ser = Some \<lparr>ID = 7, wire = [], pending = []\<rparr>, IDN = None\<rparr>
     = Some \<lparr>ID = 7, wire = [], pending = []\<rparr>
   \<and> ser (serverDisconnected 8 ''node serial server''
        \<lparr>name = None, port = None, regKey = None, serNode = None, baudrate = None,
         ser = Some \<lparr>ID = 7, wire = [], pending = []\<rparr>, IDN = None\<rparr>)
     = Some \<lparr>ID = 7, wire = [], pending = []\<rparr>
   \<and> ser (serverDisconnected 7 ''node serial server''
        \<lparr>name = None, port = None, regKey = None, serNode = None, baudrate = None,
         ser = Some \<lparr>ID = 7, wire = [], pending = []\<rparr>, IDN = None\<rparr>)
     = None"
  using serverDisconnected_identity
    [of "\<lparr>name = None, port = None, regKey = None, serNode = None, baudrate = None,
         ser = Some \<lparr>ID = 7, wire = [], pending = []\<rparr>, IDN = None\<rparr>"
        "\<lparr>ID = 7, wire = [], pending = []\<rparr>" 8 "''node serial server''"]
    serverDisconnected_identity
    [of "\<lparr>name = None, port = None, regKey = None, serNode = None, baudrate = None,
         ser = Some \<lparr>ID = 7, wire = [], pending = []\<rparr>, IDN = None\<rparr>"
        "\<lparr>ID = 7, wire = [], pending = []\<rparr>" 7 "''node serial server''"]
  by simp

end
